theory Spec2Isabelle
  imports Main
begin

section \<open>AntiGraph: the dense view of a graph stored by its missing edges\<close>

text \<open>
  The class \<open>AntiGraph\<close> of \<open>subclass/antigraph.ipynb\<close> derives from
  \<open>networkx.Graph\<close> and overrides \<open>__getitem__\<close>, \<open>neighbors\<close>, \<open>degree\<close> and
  \<open>adjacency\<close>. Every override computes
  \<^verbatim>\<open>set(self.adj) - set(self.adj[n]) - set([n])\<close>
  from the inherited adjacency dictionary.
\<close>

subsection \<open>Data model\<close>

text \<open>
  The exceptions the methods can raise: the \<open>KeyError\<close> of a dictionary subscript with
  a missing key, and \<open>NetworkXError\<close>.
\<close>

datatype error = KeyError | NetworkXError

text \<open>An edge attribute dictionary, from attribute name to number.\<close>

type_synonym attrs = "(string \<times> int) list"

text \<open>
  An adjacency dictionary in insertion order, from each node to the nodes stored beside
  it. The inner dictionaries are kept as their key lists.
\<close>

type_synonym 'a adj_dict = "('a \<times> 'a list) list"

text \<open>
  Modelled from the spec: the inherited state of \<open>networkx.Graph\<close>, which is not part of
  the notebook. \<open>adj\<close> is the sparse adjacency map.

  \<open>all_edge_dict\<close> is the class attribute \<^verbatim>\<open>all_edge_dict = {'weight': 1}\<close>. It is one
  mutable dictionary, and the class line \<^verbatim>\<open>edge_attr_dict_factory = single_edge_dict\<close>
  hands that same dictionary to the base class as the attribute dictionary of every
  stored edge. The base class updates the attribute dictionary of an edge in place when
  the edge is added with attributes, so the content of \<open>all_edge_dict\<close> is part of the
  state that the methods read. Every stored edge has this dictionary as its attributes,
  which is why the inner dictionaries of \<open>adj\<close> need only their keys.
\<close>

record 'a graph =
  adj :: "'a adj_dict"
  all_edge_dict :: attrs

text \<open>
  Modelled from the spec: \<open>self.nodes()\<close> and \<open>n in self\<close> of the base class. The base
  class keeps its node dictionary and its adjacency dictionary on the same keys in the
  same insertion order, so both are read off \<open>adj\<close>.
\<close>

definition nodes :: "'a graph \<Rightarrow> 'a list" where
  "nodes g = map fst (adj g)"

definition contains :: "'a graph \<Rightarrow> 'a \<Rightarrow> bool" where
  "contains g n = (n \<in> set (nodes g))"

text \<open>\<open>self.adj[n]\<close>: the subscript raises \<open>KeyError\<close> on a missing key.\<close>

definition adj_item :: "'a graph \<Rightarrow> 'a \<Rightarrow> error + 'a list" where
  "adj_item g n = (case map_of (adj g) n of None \<Rightarrow> Inl KeyError | Some nb \<Rightarrow> Inr nb)"

text \<open>
  A Python \<open>set\<close> is kept as a list without repetitions. The order in which Python
  iterates a set is unspecified; the list fixes one order, and no theorem below depends
  on it.
\<close>

definition py_set :: "'a list \<Rightarrow> 'a list" where
  "py_set xs = remdups xs"

definition set_minus :: "'a list \<Rightarrow> 'a list \<Rightarrow> 'a list" where
  "set_minus xs ys = filter (\<lambda>x. x \<notin> set ys) xs"

text \<open>\<open>dict.get\<close> with a default, and \<open>dict.update\<close>, which writes in place.\<close>

definition dict_get :: "attrs \<Rightarrow> string \<Rightarrow> int \<Rightarrow> int" where
  "dict_get d k dflt = (case map_of d k of None \<Rightarrow> dflt | Some v \<Rightarrow> v)"

fun dict_set :: "attrs \<Rightarrow> string \<Rightarrow> int \<Rightarrow> attrs" where
  "dict_set [] k v = [(k, v)]"
| "dict_set ((k', v') # d) k v =
     (if k' = k then (k, v) # d else (k', v') # dict_set d k v)"

definition dict_update :: "attrs \<Rightarrow> attrs \<Rightarrow> attrs" where
  "dict_update d attr = foldl (\<lambda>d' (k, v). dict_set d' k v) d attr"

text \<open>
  The method \<open>single_edge_dict\<close> returns the class dictionary itself, and the class
  installs it as \<open>edge_attr_dict_factory\<close>.
\<close>

definition single_edge_dict :: "'a graph \<Rightarrow> attrs" where
  "single_edge_dict g = all_edge_dict g"

definition edge_attr_dict_factory :: "'a graph \<Rightarrow> attrs" where
  "edge_attr_dict_factory g = single_edge_dict g"

text \<open>
  Modelled from the spec: how a store comes to be, through the base class, which is not
  part of the notebook. A new \<open>AntiGraph\<close> has no nodes and the class dictionary as the
  class statement leaves it. \<open>add_node\<close> adds a key with no neighbours. \<open>add_edge\<close> adds
  both ends, takes the attribute dictionary of the edge from \<open>edge_attr_dict_factory\<close>,
  updates it in place with the attributes given, and stores each end beside the other.
  Section 9 of the specification records the effect: attributes given to one edge
  change the record of all edges.
\<close>

definition new_graph :: "'a graph" where
  "new_graph = \<lparr>adj = [], all_edge_dict = [(''weight'', 1)]\<rparr>"

definition add_node :: "'a graph \<Rightarrow> 'a \<Rightarrow> 'a graph" where
  "add_node g n = (if n \<in> set (map fst (adj g)) then g else g\<lparr>adj := adj g @ [(n, [])]\<rparr>)"

definition add_key :: "'a \<Rightarrow> 'a list \<Rightarrow> 'a list" where
  "add_key v nb = (if v \<in> set nb then nb else nb @ [v])"

definition add_edge :: "'a graph \<Rightarrow> 'a \<Rightarrow> 'a \<Rightarrow> attrs \<Rightarrow> 'a graph" where
  "add_edge g u v attr =
     (let g' = add_node (add_node g u) v
      in g'\<lparr>adj := map (\<lambda>(n, nb). (n, (if n = v then add_key u else id)
                                         ((if n = u then add_key v else id) nb))) (adj g'),
            all_edge_dict := dict_update (edge_attr_dict_factory g') attr\<rparr>)"

subsection \<open>The methods\<close>

text \<open>
  The expression \<^verbatim>\<open>set(U) - set(self.adj[n]) - set([n])\<close>, which every method writes
  out, with \<open>U\<close> either \<open>self.adj\<close> or \<open>self.nodes()\<close>. The set of \<open>U\<close> is built first,
  then the subscript may raise.
\<close>

definition dense_nbrs :: "'a list \<Rightarrow> 'a graph \<Rightarrow> 'a \<Rightarrow> error + 'a list" where
  "dense_nbrs universe g n =
     (case adj_item g n of
        Inl e \<Rightarrow> Inl e
      | Inr nb \<Rightarrow> Inr (set_minus (set_minus (py_set universe) (py_set nb)) (py_set [n])))"

text \<open>
  The dictionary \<^verbatim>\<open>{v: self.all_edge_dict for v in ...}\<close> over that expression, also
  what \<^verbatim>\<open>dict((node, self.all_edge_dict) for node in ...)\<close> builds: every value is the
  class dictionary as it stands at the call.
\<close>

definition nbrs_dict :: "'a list \<Rightarrow> 'a graph \<Rightarrow> 'a \<Rightarrow> error + ('a \<times> attrs) list" where
  "nbrs_dict universe g n =
     (case dense_nbrs universe g n of
        Inl e \<Rightarrow> Inl e
      | Inr s \<Rightarrow> Inr (map (\<lambda>v. (v, all_edge_dict g)) s))"

text \<open>\<open>__getitem__\<close> has no handler: the \<open>KeyError\<close> of \<open>self.adj[n]\<close> reaches the caller.\<close>

definition getitem :: "'a graph \<Rightarrow> 'a \<Rightarrow> error + ('a \<times> attrs) list" where
  "getitem g n = nbrs_dict (map fst (adj g)) g n"

text \<open>\<open>neighbors\<close> turns the \<open>KeyError\<close> into a \<open>NetworkXError\<close>.\<close>

definition neighbors :: "'a graph \<Rightarrow> 'a \<Rightarrow> error + 'a list" where
  "neighbors g n =
     (case dense_nbrs (map fst (adj g)) g n of
        Inl KeyError \<Rightarrow> Inl NetworkXError
      | Inl e \<Rightarrow> Inl e
      | Inr s \<Rightarrow> Inr s)"

text \<open>
  \<^verbatim>\<open>sum((nbrs[nbr].get(weight, 1) for nbr in nbrs))\<close>: the keys of \<open>nbrs\<close> are visited in
  turn and each is looked up again with a subscript.
\<close>

fun weight_sum :: "('a \<times> attrs) list \<Rightarrow> string \<Rightarrow> 'a list \<Rightarrow> error + int" where
  "weight_sum nbrs k [] = Inr 0"
| "weight_sum nbrs k (v # vs) =
     (case map_of nbrs v of
        None \<Rightarrow> Inl KeyError
      | Some d \<Rightarrow>
          (case weight_sum nbrs k vs of
             Inl e \<Rightarrow> Inl e
           | Inr s \<Rightarrow> Inr (dict_get d k 1 + s)))"

text \<open>
  \<^verbatim>\<open>(n in nbrs and nbrs[n].get(weight, 1))\<close>: \<open>False\<close> counts as 0 in the addition.
\<close>

definition self_loop_weight :: "('a \<times> attrs) list \<Rightarrow> 'a \<Rightarrow> string \<Rightarrow> error + int" where
  "self_loop_weight nbrs n k =
     (if n \<in> set (map fst nbrs)
      then (case map_of nbrs n of None \<Rightarrow> Inl KeyError | Some d \<Rightarrow> Inr (dict_get d k 1))
      else Inr 0)"

text \<open>
  The degree of \<open>n\<close> from its dictionary \<open>nbrs\<close>, as both the single-node branch and
  \<open>d_iter\<close> compute it: \<^verbatim>\<open>len(nbrs) + (n in nbrs)\<close> when \<open>weight is None\<close>, the weighted
  sum otherwise.
\<close>

definition node_degree :: "('a \<times> attrs) list \<Rightarrow> 'a \<Rightarrow> string option \<Rightarrow> error + int" where
  "node_degree nbrs n weight =
     (case weight of
        None \<Rightarrow> Inr (int (length nbrs) + (if n \<in> set (map fst nbrs) then 1 else 0))
      | Some k \<Rightarrow>
          (case weight_sum nbrs k (map fst nbrs) of
             Inl e \<Rightarrow> Inl e
           | Inr s \<Rightarrow>
               (case self_loop_weight nbrs n k of
                  Inl e \<Rightarrow> Inl e
                | Inr l \<Rightarrow> Inr (s + l))))"

text \<open>
  The argument \<open>nbunch\<close> of \<open>degree\<close>: \<open>None\<close>, one node, or a container of nodes.
\<close>

datatype 'a nbunch = NoBunch | Node 'a | Bunch "'a list"

text \<open>
  Modelled from the spec: \<open>nbunch_iter\<close> of the base class, which filters a
  caller-supplied container against the known node universe, keeps its iteration order,
  and rejects an argument that is neither a node of the graph nor a container.
\<close>

definition nbunch_iter :: "'a graph \<Rightarrow> 'a nbunch \<Rightarrow> error + 'a list" where
  "nbunch_iter g nbunch =
     (case nbunch of
        NoBunch \<Rightarrow> Inr (map fst (adj g))
      | Node n \<Rightarrow> (if contains g n then Inr [n] else Inl NetworkXError)
      | Bunch ns \<Rightarrow> Inr (filter (\<lambda>n. n \<in> set (map fst (adj g))) ns))"

text \<open>
  The generator \<open>d_iter\<close> run over the generator \<open>nodes_nbrs\<close>: for each node in turn the
  dictionary of its derived neighbours is built over the node list \<open>universe\<close> and the pair
  (node, degree) is produced. The lazy sequence is kept as the list of what it yields,
  or the first exception.
\<close>

fun d_iter :: "'a list \<Rightarrow> 'a graph \<Rightarrow> string option \<Rightarrow> 'a list \<Rightarrow> error + ('a \<times> int) list" where
  "d_iter universe g weight [] = Inr []"
| "d_iter universe g weight (n # ns) =
     (case nbrs_dict universe g n of
        Inl e \<Rightarrow> Inl e
      | Inr nbrs \<Rightarrow>
          (case node_degree nbrs n weight of
             Inl e \<Rightarrow> Inl e
           | Inr d \<Rightarrow>
               (case d_iter universe g weight ns of
                  Inl e \<Rightarrow> Inl e
                | Inr ps \<Rightarrow> Inr ((n, d) # ps))))"

text \<open>\<open>degree\<close> returns a number for a node of the graph and a sequence otherwise.\<close>

datatype 'a degree_result = Deg int | DegIter "('a \<times> int) list"

definition degree_bulk ::
  "'a list \<Rightarrow> 'a graph \<Rightarrow> string option \<Rightarrow> error + 'a list \<Rightarrow> error + 'a degree_result" where
  "degree_bulk universe g weight bunch =
     (case bunch of
        Inl e \<Rightarrow> Inl e
      | Inr ns \<Rightarrow>
          (case d_iter universe g weight ns of
             Inl e \<Rightarrow> Inl e
           | Inr ps \<Rightarrow> Inr (DegIter ps)))"

text \<open>
  The three branches of \<open>degree\<close>: \<open>nbunch in self\<close>; \<open>nbunch is None\<close>, over
  \<open>self.nodes()\<close> with the universe \<open>set(self.adj)\<close>; and any other argument, over
  \<open>self.nbunch_iter(nbunch)\<close> with the universe \<open>set(self.nodes())\<close>.
\<close>

fun degree :: "'a graph \<Rightarrow> 'a nbunch \<Rightarrow> string option \<Rightarrow> error + 'a degree_result" where
  "degree g (Node n) weight =
     (if contains g n
      then (case nbrs_dict (map fst (adj g)) g n of
              Inl e \<Rightarrow> Inl e
            | Inr nbrs \<Rightarrow>
                (case node_degree nbrs n weight of
                   Inl e \<Rightarrow> Inl e
                 | Inr d \<Rightarrow> Inr (Deg d)))
      else degree_bulk (nodes g) g weight (nbunch_iter g (Node n)))"
| "degree g NoBunch weight = degree_bulk (map fst (adj g)) g weight (Inr (nodes g))"
| "degree g (Bunch ns) weight = degree_bulk (nodes g) g weight (nbunch_iter g (Bunch ns))"

text \<open>\<open>adjacency\<close>: one pair per key of \<open>self.adj\<close>, the set computed inside the loop.\<close>

fun adjacency_loop :: "'a graph \<Rightarrow> 'a list \<Rightarrow> error + ('a \<times> 'a list) list" where
  "adjacency_loop g [] = Inr []"
| "adjacency_loop g (n # ns) =
     (case dense_nbrs (map fst (adj g)) g n of
        Inl e \<Rightarrow> Inl e
      | Inr s \<Rightarrow>
          (case adjacency_loop g ns of
             Inl e \<Rightarrow> Inl e
           | Inr ps \<Rightarrow> Inr ((n, s) # ps)))"

definition adjacency :: "'a graph \<Rightarrow> error + ('a \<times> 'a list) list" where
  "adjacency g = adjacency_loop g (map fst (adj g))"

subsection \<open>The notions of the specification\<close>

text \<open>
  The node universe, the sparse set of a node and the derived neighbour set
  \<open>AllNodes - SparseSet(n) - {n}\<close>, as sets.
\<close>

definition AllNodes :: "'a graph \<Rightarrow> 'a set" where
  "AllNodes g = set (map fst (adj g))"

definition SparseSet :: "'a graph \<Rightarrow> 'a \<Rightarrow> 'a set" where
  "SparseSet g n = (case map_of (adj g) n of None \<Rightarrow> {} | Some nb \<Rightarrow> set nb)"

definition derived_set :: "'a graph \<Rightarrow> 'a \<Rightarrow> 'a set" where
  "derived_set g n = AllNodes g - SparseSet g n - {n}"

text \<open>
  Modelled from the spec: the degree of an explicit dense graph, which the base class
  computes and the notebook compares with. The dense graph is its adjacency dictionary.
  The degree is the number of stored neighbours, a self-loop counting twice;
  \<open>graph_degree_iter\<close> is its form over all nodes.
\<close>

definition graph_degree :: "'a adj_dict \<Rightarrow> 'a \<Rightarrow> error + int" where
  "graph_degree G n =
     (case map_of G n of
        None \<Rightarrow> Inl NetworkXError
      | Some nb \<Rightarrow> Inr (int (length nb) + (if n \<in> set nb then 1 else 0)))"

definition graph_degree_iter :: "'a adj_dict \<Rightarrow> ('a \<times> int) list" where
  "graph_degree_iter G =
     map (\<lambda>(n, nb). (n, int (length nb) + (if n \<in> set nb then 1 else 0))) G"

text \<open>
  A simple undirected graph in adjacency form: the keys are distinct, no neighbour list
  repeats a node or holds its own node, and every edge is stored at both of its ends.
\<close>

definition simple_graph :: "'a adj_dict \<Rightarrow> bool" where
  "simple_graph G =
     (distinct (map fst G) \<and>
      list_all (\<lambda>(n, nb). distinct nb \<and> n \<notin> set nb \<and>
                  list_all (\<lambda>v. case map_of G v of
                                   None \<Rightarrow> False
                                 | Some nb' \<Rightarrow> n \<in> set nb') nb) G)"

text \<open>
  \<open>A\<close> is a complement view of \<open>G\<close>: it has the nodes of \<open>G\<close>, each once, and stores at
  every node exactly the non-edges of \<open>G\<close> there.
\<close>

definition complement_view :: "'a adj_dict \<Rightarrow> 'a graph \<Rightarrow> bool" where
  "complement_view G A =
     (distinct (map fst (adj A)) \<and> AllNodes A = set (map fst G) \<and>
      list_all (\<lambda>(n, nb). SparseSet A n = set (map fst G) - {n} - set nb) G)"

text \<open>
  The store of the concrete scenario, \<open>{0:{1}, 1:{0}, 2:{}, 3:{}}\<close>, with the class
  dictionary untouched, and the dense graph it stands for, with the five edges 0-2, 0-3,
  1-2, 1-3 and 2-3.
\<close>

definition example_store :: "int graph" where
  "example_store =
     \<lparr>adj = [(0, [1]), (1, [0]), (2, []), (3, [])], all_edge_dict = [(''weight'', 1)]\<rparr>"

definition example_dense :: "int adj_dict" where
  "example_dense = [(0, [2, 3]), (1, [2, 3]), (2, [0, 1, 3]), (3, [0, 1, 2])]"

text \<open>
  The same store when its one stored edge carries an attribute: the state of \<open>A\<close> after
  \<^verbatim>\<open>H = nx.Graph(); H.add_nodes_from([0, 1, 2, 3]); H.add_edge(0, 1, weight=5);
  A = AntiGraph(H)\<close>.
\<close>

definition weighted_store :: "int graph" where
  "weighted_store =
     \<lparr>adj = [(0, [1]), (1, [0]), (2, []), (3, [])], all_edge_dict = [(''weight'', 5)]\<rparr>"

section \<open>Properties\<close>

subsection \<open>The derived neighbour set\<close>

lemma contains_iff_key: "contains g n = (map_of (adj g) n \<noteq> None)"
  by (simp add: contains_def nodes_def map_of_eq_None_iff)

lemma AllNodes_nodes: "AllNodes g = set (nodes g)"
  by (simp add: AllNodes_def nodes_def)

lemma contains_AllNodes: "contains g n = (n \<in> AllNodes g)"
  by (simp add: contains_def AllNodes_nodes)

lemma univ_adj: "set (map fst (adj g)) = AllNodes g"
  by (simp add: AllNodes_def)

lemma univ_nodes: "set (nodes g) = AllNodes g"
  by (simp add: AllNodes_nodes)

lemma not_in_derived_set: "n \<notin> derived_set g n"
  by (simp add: derived_set_def)

lemma dense_nbrs_absent: "\<not> contains g n \<Longrightarrow> dense_nbrs universe g n = Inl KeyError"
  by (simp add: contains_iff_key dense_nbrs_def adj_item_def)

lemma dense_nbrs_present:
  assumes "contains g n" and "set universe = AllNodes g"
  shows "\<exists>s. dense_nbrs universe g n = Inr s \<and> set s = derived_set g n \<and> distinct s"
proof -
  from assms(1) obtain nb where nb: "map_of (adj g) n = Some nb"
    by (auto simp: contains_iff_key)
  let ?s = "set_minus (set_minus (py_set universe) (py_set nb)) (py_set [n])"
  have "dense_nbrs universe g n = Inr ?s"
    by (simp add: dense_nbrs_def adj_item_def nb)
  moreover have "set ?s = derived_set g n"
    using assms(2) by (auto simp: derived_set_def SparseSet_def nb set_minus_def py_set_def)
  moreover have "distinct ?s"
    by (simp add: set_minus_def py_set_def)
  ultimately show ?thesis by blast
qed

subsection \<open>The shared record and the degree of one node\<close>

text \<open>
  A dictionary all of whose values are one record \<open>r\<close>. Without a weight key the degree
  does not read \<open>r\<close>; with a weight key \<open>k\<close> every neighbour counts \<open>r.get(k, 1)\<close>.
\<close>

lemma map_of_shared: "v \<in> set s \<Longrightarrow> map_of (map (\<lambda>v. (v, r)) s) v = Some r"
  by (induction s) auto

lemma keys_shared: "map fst (map (\<lambda>v. (v, r)) s) = s"
  by (induction s) simp_all

lemma weight_sum_shared:
  "set vs \<subseteq> set s \<Longrightarrow>
     weight_sum (map (\<lambda>v. (v, r)) s) k vs = Inr (int (length vs) * dict_get r k 1)"
  by (induction vs) (simp_all add: map_of_shared algebra_simps)

lemma node_degree_shared:
  "node_degree (map (\<lambda>v. (v, r)) s) n weight =
     Inr (case weight of
            None \<Rightarrow> int (length s) + (if n \<in> set s then 1 else 0)
          | Some k \<Rightarrow> int (length s) * dict_get r k 1 +
                       (if n \<in> set s then dict_get r k 1 else 0))"
proof (cases weight)
  case None
  then show ?thesis by (simp add: node_degree_def keys_shared)
next
  case (Some k)
  then show ?thesis
    by (simp add: node_degree_def keys_shared weight_sum_shared self_loop_weight_def
        map_of_shared)
qed

lemma nbrs_dict_present:
  assumes "contains g n" and "set universe = AllNodes g"
  shows "\<exists>s. nbrs_dict universe g n = Inr (map (\<lambda>v. (v, all_edge_dict g)) s) \<and>
             set s = derived_set g n \<and> distinct s"
  using dense_nbrs_present [OF assms] by (auto simp: nbrs_dict_def)

lemma node_degree_present:
  assumes "contains g n" and "set universe = AllNodes g"
  shows "\<exists>nbrs. nbrs_dict universe g n = Inr nbrs \<and>
           node_degree nbrs n weight =
             Inr (case weight of
                    None \<Rightarrow> int (card (derived_set g n))
                  | Some k \<Rightarrow> int (card (derived_set g n)) * dict_get (all_edge_dict g) k 1)"
proof -
  from nbrs_dict_present [OF assms] obtain s where
    s: "nbrs_dict universe g n = Inr (map (\<lambda>v. (v, all_edge_dict g)) s)"
       "set s = derived_set g n" "distinct s"
    by blast
  have l: "length s = card (derived_set g n)"
    using s(2,3) distinct_card by fastforce
  have "n \<notin> set s"
    using s(2) by (simp add: not_in_derived_set)
  then show ?thesis
    using s(1) l by (simp add: node_degree_shared split: option.splits)
qed

lemma degree_node_present:
  assumes "contains g n"
  shows "degree g (Node n) weight =
           Inr (Deg (case weight of
                       None \<Rightarrow> int (card (derived_set g n))
                     | Some k \<Rightarrow> int (card (derived_set g n)) * dict_get (all_edge_dict g) k 1))"
  using assms node_degree_present [OF assms univ_adj, of weight] by auto

subsection \<open>The bulk forms\<close>

lemma d_iter_present:
  assumes "set universe = AllNodes g"
  shows "set ns \<subseteq> AllNodes g \<Longrightarrow>
     d_iter universe g weight ns =
       Inr (map (\<lambda>n. (n, case weight of
                           None \<Rightarrow> int (card (derived_set g n))
                         | Some k \<Rightarrow> int (card (derived_set g n)) *
                                      dict_get (all_edge_dict g) k 1)) ns)"
proof (induction ns)
  case Nil
  then show ?case by simp
next
  case (Cons n ns)
  then have c: "contains g n" by (simp add: contains_AllNodes)
  from node_degree_present [OF c assms, of weight] Cons show ?case by auto
qed

lemma degree_bunch_filter:
  "degree g (Bunch S) weight =
     Inr (DegIter (map (\<lambda>n. (n, case weight of
                                   None \<Rightarrow> int (card (derived_set g n))
                                 | Some k \<Rightarrow> int (card (derived_set g n)) *
                                              dict_get (all_edge_dict g) k 1))
                       (filter (\<lambda>n. n \<in> AllNodes g) S)))"
proof -
  have "set (filter (\<lambda>n. n \<in> AllNodes g) S) \<subseteq> AllNodes g"
    by auto
  from d_iter_present [OF univ_nodes this, of weight] show ?thesis
    by (simp add: degree_bulk_def nbunch_iter_def AllNodes_def)
qed

lemma degree_all_nodes:
  "degree g NoBunch weight =
     Inr (DegIter (map (\<lambda>n. (n, case weight of
                                   None \<Rightarrow> int (card (derived_set g n))
                                 | Some k \<Rightarrow> int (card (derived_set g n)) *
                                              dict_get (all_edge_dict g) k 1))
                       (nodes g)))"
proof -
  have "set (nodes g) \<subseteq> AllNodes g"
    by (simp add: univ_nodes)
  from d_iter_present [OF univ_adj this, of weight] show ?thesis
    by (simp add: degree_bulk_def)
qed

text \<open>
  While the class dictionary is as the class statement leaves it, a weight key changes
  nothing.
\<close>

lemma degree_weight_intact:
  assumes "all_edge_dict g = [(''weight'', 1)]"
  shows "degree g nbunch (Some k) = degree g nbunch None"
proof -
  have one: "dict_get (all_edge_dict g) k 1 = 1"
    by (simp add: assms dict_get_def)
  show ?thesis
  proof (cases nbunch)
    case NoBunch
    then show ?thesis by (simp add: degree_all_nodes one del: degree.simps)
  next
    case (Node n)
    show ?thesis
    proof (cases "contains g n")
      case True
      then show ?thesis by (simp add: Node degree_node_present one del: degree.simps)
    next
      case False
      then show ?thesis by (simp add: Node degree_bulk_def nbunch_iter_def)
    qed
  next
    case (Bunch S)
    then show ?thesis by (simp add: degree_bunch_filter one del: degree.simps)
  qed
qed

lemma adjacency_loop_present:
  "set ns \<subseteq> AllNodes g \<Longrightarrow>
     \<exists>ps. adjacency_loop g ns = Inr ps \<and>
          map (\<lambda>(n, s). (n, set s)) ps = map (\<lambda>n. (n, derived_set g n)) ns \<and>
          list_all (\<lambda>(n, s). distinct s) ps"
proof (induction ns)
  case Nil
  then show ?case by simp
next
  case (Cons n ns)
  then have c: "contains g n" by (simp add: contains_AllNodes)
  from dense_nbrs_present [OF c univ_adj] Cons show ?case by auto
qed

text \<open>
  The keys of \<open>view[n]\<close> are the derived neighbours, each once, and every value is the
  class dictionary as it stands.
\<close>

lemma getitem_keys:
  assumes "contains g n"
  shows "\<exists>d. getitem g n = Inr d \<and> set (map fst d) = derived_set g n \<and>
             distinct (map fst d) \<and> (\<forall>p \<in> set d. snd p = all_edge_dict g)"
proof -
  from nbrs_dict_present [OF assms univ_adj] obtain s where
    s: "nbrs_dict (map fst (adj g)) g n = Inr (map (\<lambda>v. (v, all_edge_dict g)) s)"
       "set s = derived_set g n" "distinct s"
    by blast
  let ?d = "map (\<lambda>v. (v, all_edge_dict g)) s"
  have "getitem g n = Inr ?d" by (simp add: getitem_def s(1))
  moreover have "set (map fst ?d) = derived_set g n"
    using s(2) by (simp add: keys_shared)
  moreover have "distinct (map fst ?d)"
    using s(3) by (simp add: comp_def)
  moreover have "\<forall>p \<in> set ?d. snd p = all_edge_dict g"
    by auto
  ultimately show ?thesis by blast
qed

subsection \<open>The concrete scenario\<close>

lemma example_store_built:
  "add_edge (add_node (add_node (add_node (add_node new_graph 0) 1) 2) 3) 0 1 [] =
     example_store"
  by (simp add: add_edge_def add_node_def add_key_def new_graph_def example_store_def
      dict_update_def edge_attr_dict_factory_def single_edge_dict_def Let_def)

lemma weighted_store_built:
  "add_edge (add_node (add_node (add_node (add_node new_graph 0) 1) 2) 3) 0 1
     [(''weight'', 5)] = weighted_store"
  by (simp add: add_edge_def add_node_def add_key_def new_graph_def weighted_store_def
      dict_update_def edge_attr_dict_factory_def single_edge_dict_def Let_def)

lemma example_contains: "contains example_store n = (n \<in> {0, 1, 2, 3})"
  by (auto simp: contains_def nodes_def example_store_def)

lemma example_nodes: "nodes example_store = [0, 1, 2, 3]"
  by (simp add: nodes_def example_store_def)

lemma example_derived:
  "derived_set example_store 0 = {2, 3}"
  "derived_set example_store 1 = {2, 3}"
  "derived_set example_store 2 = {0, 1, 3}"
  "derived_set example_store 3 = {0, 1, 2}"
  by (auto simp: derived_set_def AllNodes_def SparseSet_def example_store_def)

lemma weighted_contains: "contains weighted_store n = (n \<in> {0, 1, 2, 3})"
  by (auto simp: contains_def nodes_def weighted_store_def)

lemma weighted_AllNodes: "AllNodes weighted_store = {0, 1, 2, 3}"
  by (auto simp: AllNodes_def weighted_store_def)

lemma weighted_derived:
  "derived_set weighted_store 0 = {2, 3}"
  "derived_set weighted_store 1 = {2, 3}"
  "derived_set weighted_store 2 = {0, 1, 3}"
  "derived_set weighted_store 3 = {0, 1, 2}"
  by (auto simp: derived_set_def AllNodes_def SparseSet_def weighted_store_def)

lemma weighted_record:
  "dict_get (all_edge_dict weighted_store) ''weight'' 1 = 5"
  by (simp add: dict_get_def weighted_store_def)

lemma example_dense_simple: "simple_graph example_dense"
  by (simp add: simple_graph_def example_dense_def)

lemma example_view: "complement_view example_dense example_store"
  by (auto simp: complement_view_def example_dense_def example_store_def AllNodes_def
      SparseSet_def)

subsection \<open>A dense graph and its complement view\<close>

lemma simple_graph_entry:
  assumes "simple_graph G" and "(n, nb) \<in> set G"
  shows "map_of G n = Some nb" "distinct nb" "n \<notin> set nb" "set nb \<subseteq> set (map fst G)"
proof -
  from assms show "map_of G n = Some nb"
    by (simp add: simple_graph_def)
  from assms have e: "distinct nb \<and> n \<notin> set nb \<and>
      list_all (\<lambda>v. case map_of G v of None \<Rightarrow> False | Some nb' \<Rightarrow> n \<in> set nb') nb"
    by (auto simp: simple_graph_def list_all_iff)
  then show "distinct nb" "n \<notin> set nb" by simp_all
  show "set nb \<subseteq> set (map fst G)"
  proof
    fix v assume "v \<in> set nb"
    with e have "map_of G v \<noteq> None"
      by (auto simp: list_all_iff split: option.splits)
    then show "v \<in> set (map fst G)"
      by (simp add: map_of_eq_None_iff)
  qed
qed

lemma complement_view_derived:
  assumes "simple_graph G" and "complement_view G A" and "(n, nb) \<in> set G"
  shows "derived_set A n = set nb"
proof -
  from assms(2) have
    "\<forall>p \<in> set G. case p of (n, nb) \<Rightarrow> SparseSet A n = set (map fst G) - {n} - set nb"
    by (simp add: complement_view_def list_all_iff)
  from bspec [OF this assms(3)] have sp: "SparseSet A n = set (map fst G) - {n} - set nb"
    by simp
  from assms(2) have al: "AllNodes A = set (map fst G)"
    by (simp add: complement_view_def)
  from simple_graph_entry(3,4) [OF assms(1,3)] show ?thesis
    unfolding derived_set_def sp al by auto
qed

lemma complement_view_degree:
  assumes "simple_graph G" and "complement_view G A" and "(n, nb) \<in> set G"
  shows "int (card (derived_set A n)) = int (length nb) + (if n \<in> set nb then 1 else 0)"
  using complement_view_derived [OF assms] simple_graph_entry(2,3) [OF assms(1,3)]
  by (simp add: distinct_card)

section \<open>The claims\<close>

text \<open>
  C1. For every node \<open>n\<close> that is a key of the sparse adjacency map, \<open>neighbors(n)\<close>
  produces a finite sequence whose elements, as a set, are
  \<open>AllNodes - SparseSet(n) - {n}\<close>, each derived neighbour appearing exactly once.
\<close>

theorem neighbors_derived:
  "contains g n \<Longrightarrow>
     \<exists>s. neighbors g n = Inr s \<and> set s = AllNodes g - SparseSet g n - {n} \<and> distinct s"
  using dense_nbrs_present [of g n, OF _ univ_adj]
  by (auto simp: neighbors_def derived_set_def)

theorem neighbors_derived_witness:
  "contains example_store 2 \<and>
   (\<exists>s. neighbors example_store 2 = Inr s \<and> set s = {0, 1, 3} \<and> distinct s)"
proof -
  have c: "contains example_store 2"
    by (simp add: example_contains)
  have e: "AllNodes example_store - SparseSet example_store 2 - {2} = {0, 1, 3}"
    using example_derived(3) by (simp add: derived_set_def)
  show ?thesis
    using c neighbors_derived [OF c] by (simp add: e)
qed

text \<open>
  C2. For every node \<open>n\<close> that is a key of the sparse adjacency map, \<open>degree(n)\<close> with no
  weight key returns the size of the derived set \<open>AllNodes - SparseSet(n) - {n}\<close>, plus 1
  if \<open>n\<close> is in that set. On the universe \<open>{0,1,2,3}\<close> with the store
  \<open>{0:{1}, 1:{0}, 2:{}, 3:{}}\<close> the degrees are 2, 2, 3 and 3, and their sum is 10.
\<close>

theorem degree_single_unweighted:
  "(contains g n \<longrightarrow>
      degree g (Node n) None =
        Inr (Deg (int (card (AllNodes g - SparseSet g n - {n})) +
                  (if n \<in> AllNodes g - SparseSet g n - {n} then 1 else 0)))) \<and>
   degree example_store (Node 0) None = Inr (Deg 2) \<and>
   degree example_store (Node 1) None = Inr (Deg 2) \<and>
   degree example_store (Node 2) None = Inr (Deg 3) \<and>
   degree example_store (Node 3) None = Inr (Deg 3) \<and>
   (\<exists>ps. degree example_store NoBunch None = Inr (DegIter ps) \<and> sum_list (map snd ps) = 10)"
proof -
  have gen: "contains g n \<longrightarrow>
      degree g (Node n) None =
        Inr (Deg (int (card (AllNodes g - SparseSet g n - {n})) +
                  (if n \<in> AllNodes g - SparseSet g n - {n} then 1 else 0)))"
    using degree_node_present [of g n None] by (simp add: derived_set_def)
  have d0: "degree example_store (Node 0) None = Inr (Deg 2)"
    using degree_node_present [of example_store 0 None]
    by (simp add: example_contains example_derived)
  have d1: "degree example_store (Node 1) None = Inr (Deg 2)"
    using degree_node_present [of example_store 1 None]
    by (simp add: example_contains example_derived)
  have d2: "degree example_store (Node 2) None = Inr (Deg 3)"
    using degree_node_present [of example_store 2 None]
    by (simp add: example_contains example_derived)
  have d3: "degree example_store (Node 3) None = Inr (Deg 3)"
    using degree_node_present [of example_store 3 None]
    by (simp add: example_contains example_derived)
  have "degree example_store NoBunch None = Inr (DegIter [(0, 2), (1, 2), (2, 3), (3, 3)])"
    by (simp add: degree_all_nodes example_nodes example_derived del: degree.simps)
  then have s: "\<exists>ps. degree example_store NoBunch None = Inr (DegIter ps) \<and>
                  sum_list (map snd ps) = 10"
    by simp
  from gen d0 d1 d2 d3 s show ?thesis by blast
qed

theorem degree_single_unweighted_witness:
  "contains example_store 2 \<and>
   degree example_store (Node 2) None = Inr (Deg (int (card {0, 1, 3 :: int})))"
proof -
  have c: "contains example_store 2" by (simp add: example_contains)
  have e: "AllNodes example_store - SparseSet example_store 2 - {2} = {0, 1, 3}"
    using example_derived(3) by (simp add: derived_set_def)
  from degree_single_unweighted [of example_store 2] c show ?thesis
    by (simp add: e)
qed

text \<open>
  C3. The claim is that for every node \<open>n\<close> in the sparse store and every weight key
  \<open>k\<close>, \<open>degree(n, weight=k)\<close> equals \<open>degree(n)\<close>, and likewise for the bulk forms. The
  code breaks it once a stored edge has been given an attribute. On the store of the
  scenario with its edge 0-1 added with \<open>weight=5\<close>, the class dictionary holds
  \<open>{'weight': 5}\<close>, so \<open>degree(2, weight='weight')\<close> is 15 where \<open>degree(2)\<close> is 3, and
  \<open>degree([3, 1], weight='weight')\<close> yields 15 and 10 where \<open>degree([3, 1])\<close> yields 3
  and 2.
\<close>

theorem degree_weight_differs:
  "contains weighted_store 2 \<and>
   degree weighted_store (Node 2) (Some ''weight'') = Inr (Deg 15) \<and>
   degree weighted_store (Node 2) None = Inr (Deg 3) \<and>
   degree weighted_store (Bunch [3, 1]) (Some ''weight'') = Inr (DegIter [(3, 15), (1, 10)]) \<and>
   degree weighted_store (Bunch [3, 1]) None = Inr (DegIter [(3, 3), (1, 2)])"
proof (intro conjI)
  show c: "contains weighted_store 2" by (simp add: weighted_contains)
  show "degree weighted_store (Node 2) (Some ''weight'') = Inr (Deg 15)"
    by (simp add: degree_node_present [OF c] weighted_derived weighted_record
        del: degree.simps)
  show "degree weighted_store (Node 2) None = Inr (Deg 3)"
    by (simp add: degree_node_present [OF c] weighted_derived del: degree.simps)
  show "degree weighted_store (Bunch [3, 1]) (Some ''weight'') =
          Inr (DegIter [(3, 15), (1, 10)])"
    by (simp add: degree_bunch_filter weighted_AllNodes weighted_derived weighted_record
        del: degree.simps)
  show "degree weighted_store (Bunch [3, 1]) None = Inr (DegIter [(3, 3), (1, 2)])"
    by (simp add: degree_bunch_filter weighted_AllNodes weighted_derived
        del: degree.simps)
qed

text \<open>
  C4. For a simple undirected graph \<open>G\<close> and a complement view \<open>A\<close> that stores at each
  node exactly the non-edges of \<open>G\<close> there, the degree of every node in \<open>A\<close>, taken with
  no weight key, is its degree in \<open>G\<close>, and the degrees summed over all nodes agree.
\<close>

theorem degree_matches_dense:
  assumes "simple_graph G" and "complement_view G A"
  shows "(\<forall>n \<in> set (map fst G).
            \<exists>d. graph_degree G n = Inr d \<and> degree A (Node n) None = Inr (Deg d)) \<and>
         (\<exists>ps. degree A NoBunch None = Inr (DegIter ps) \<and>
               sum_list (map snd ps) = sum_list (map snd (graph_degree_iter G)))"
proof
  show "\<forall>n \<in> set (map fst G).
          \<exists>d. graph_degree G n = Inr d \<and> degree A (Node n) None = Inr (Deg d)"
  proof
    fix n assume n: "n \<in> set (map fst G)"
    then obtain nb where nb: "(n, nb) \<in> set G"
      by auto
    from assms(2) n have c: "contains A n"
      by (simp add: contains_AllNodes complement_view_def)
    have "graph_degree G n = Inr (int (length nb) + (if n \<in> set nb then 1 else 0))"
      by (simp add: graph_degree_def simple_graph_entry(1) [OF assms(1) nb])
    moreover have "degree A (Node n) None =
        Inr (Deg (int (length nb) + (if n \<in> set nb then 1 else 0)))"
      using complement_view_degree [OF assms nb]
      by (simp add: degree_node_present [OF c] del: degree.simps)
    ultimately show "\<exists>d. graph_degree G n = Inr d \<and> degree A (Node n) None = Inr (Deg d)"
      by simp
  qed
next
  let ?f = "\<lambda>n. int (card (derived_set A n))"
  have dA: "distinct (nodes A)" and dG: "distinct (map fst G)"
    using assms by (simp_all add: nodes_def complement_view_def simple_graph_def)
  have same: "set (nodes A) = set (map fst G)"
    using assms(2) by (simp add: complement_view_def AllNodes_nodes)
  have "sum_list (map ?f (nodes A)) = sum ?f (set (nodes A))"
    using dA by (rule sum_list_distinct_conv_sum_set)
  also have "\<dots> = sum ?f (set (map fst G))"
    by (simp only: same)
  also have "\<dots> = sum_list (map ?f (map fst G))"
    using dG by (rule sum_list_distinct_conv_sum_set [symmetric])
  also have "\<dots> = sum_list (map (\<lambda>p. ?f (fst p)) G)"
    by (simp add: comp_def)
  also have "\<dots> = sum_list (map snd (graph_degree_iter G))"
  proof -
    have "map (\<lambda>p. ?f (fst p)) G = map snd (graph_degree_iter G)"
      unfolding graph_degree_iter_def map_map
    proof (rule map_cong [OF refl])
      fix p assume p: "p \<in> set G"
      obtain n nb where pn: "p = (n, nb)" by (cases p)
      with p complement_view_degree [OF assms, of n nb]
      show "?f (fst p) =
            (snd \<circ> (\<lambda>(n, nb). (n, int (length nb) + (if n \<in> set nb then 1 else 0)))) p"
        by simp
    qed
    then show ?thesis by simp
  qed
  finally have "sum_list (map ?f (nodes A)) = sum_list (map snd (graph_degree_iter G))" .
  then show "\<exists>ps. degree A NoBunch None = Inr (DegIter ps) \<and>
               sum_list (map snd ps) = sum_list (map snd (graph_degree_iter G))"
    by (simp add: degree_all_nodes comp_def del: degree.simps)
qed

theorem degree_matches_dense_witness:
  "simple_graph example_dense \<and> complement_view example_dense example_store \<and>
   graph_degree example_dense 2 = Inr 3 \<and> degree example_store (Node 2) None = Inr (Deg 3) \<and>
   sum_list (map snd (graph_degree_iter example_dense)) = 10 \<and>
   (\<exists>ps. degree example_store NoBunch None = Inr (DegIter ps) \<and> sum_list (map snd ps) = 10)"
proof -
  have g: "graph_degree example_dense 2 = Inr 3"
    by (simp add: graph_degree_def example_dense_def)
  have s: "sum_list (map snd (graph_degree_iter example_dense)) = 10"
    by (simp add: graph_degree_iter_def example_dense_def)
  have m: "2 \<in> set (map fst example_dense)"
    by (simp add: example_dense_def)
  from degree_matches_dense [OF example_dense_simple example_view] g s m
  show ?thesis
    by (auto simp: example_dense_simple example_view simp del: degree.simps)
qed

text \<open>
  C5. For a container \<open>S\<close> of nodes of the store, the bulk form \<open>degree(S)\<close>, with no
  weight key, yields, in the iteration order of \<open>S\<close>, one pair (n, d) per requested
  node, where d is computed against the whole node universe of the store, not against
  \<open>S\<close>: it is the size of \<open>AllNodes - SparseSet(n) - {n}\<close> plus the self-loop
  adjustment. The default form yields one such pair per node of the universe, in the
  order of the node enumeration.
\<close>

theorem degree_bulk_universe:
  "(set S \<subseteq> AllNodes g \<longrightarrow>
      degree g (Bunch S) None =
        Inr (DegIter (map (\<lambda>n. (n, int (card (AllNodes g - SparseSet g n - {n})) +
                                  (if n \<in> AllNodes g - SparseSet g n - {n} then 1 else 0)))
                      S))) \<and>
   degree g NoBunch None =
     Inr (DegIter (map (\<lambda>n. (n, int (card (AllNodes g - SparseSet g n - {n})) +
                               (if n \<in> AllNodes g - SparseSet g n - {n} then 1 else 0)))
                   (nodes g)))"
proof (intro conjI impI)
  assume "set S \<subseteq> AllNodes g"
  then have "filter (\<lambda>n. n \<in> AllNodes g) S = S"
    by (auto simp: filter_id_conv)
  then show "degree g (Bunch S) None =
        Inr (DegIter (map (\<lambda>n. (n, int (card (AllNodes g - SparseSet g n - {n})) +
                                  (if n \<in> AllNodes g - SparseSet g n - {n} then 1 else 0)))
                      S))"
    by (simp add: degree_bunch_filter derived_set_def del: degree.simps)
next
  show "degree g NoBunch None =
     Inr (DegIter (map (\<lambda>n. (n, int (card (AllNodes g - SparseSet g n - {n})) +
                               (if n \<in> AllNodes g - SparseSet g n - {n} then 1 else 0)))
                   (nodes g)))"
    by (simp add: degree_all_nodes derived_set_def del: degree.simps)
qed

theorem degree_bulk_universe_witness:
  "set [3, 1] \<subseteq> AllNodes example_store \<and>
   degree example_store (Bunch [3, 1]) None = Inr (DegIter [(3, 3), (1, 2)])"
proof -
  have s: "set [3, 1] \<subseteq> AllNodes example_store"
    by (simp add: AllNodes_def example_store_def)
  have e: "AllNodes example_store - SparseSet example_store 3 - {3} = {0, 1, 2}"
          "AllNodes example_store - SparseSet example_store 1 - {1} = {2, 3}"
    using example_derived by (simp_all add: derived_set_def)
  from degree_bulk_universe [of "[3, 1]" example_store] s show ?thesis
    by (simp add: e del: degree.simps)
qed

text \<open>
  C6. \<open>adjacency()\<close> produces one pair (n, \<open>AllNodes - SparseSet(n) - {n}\<close>) for each
  node of the store's universe, in the iteration order of that universe. The set of
  each pair is computed for its own node inside the loop (\<open>adjacency_loop\<close> evaluates
  \<open>dense_nbrs\<close> once per node), not taken from a cache.
\<close>

theorem adjacency_pairs:
  "\<exists>ps. adjacency g = Inr ps \<and>
        map fst ps = nodes g \<and>
        map (\<lambda>(n, s). (n, set s)) ps =
          map (\<lambda>n. (n, AllNodes g - SparseSet g n - {n})) (nodes g) \<and>
        list_all (\<lambda>(n, s). distinct s) ps"
proof -
  have "set (nodes g) \<subseteq> AllNodes g"
    by (simp add: univ_nodes)
  from adjacency_loop_present [OF this] obtain ps where
    ps: "adjacency_loop g (nodes g) = Inr ps"
        "map (\<lambda>(n, s). (n, set s)) ps = map (\<lambda>n. (n, derived_set g n)) (nodes g)"
        "list_all (\<lambda>(n, s). distinct s) ps"
    by auto
  have "map fst (map (\<lambda>(n, s). (n, set s)) ps) = map fst ps"
    by (induction ps) auto
  with ps(2) have "map fst ps = nodes g"
    by (simp add: comp_def)
  with ps show ?thesis
    by (auto simp: adjacency_def nodes_def derived_set_def)
qed

theorem adjacency_pairs_witness:
  "\<exists>ps. adjacency example_store = Inr ps \<and> map fst ps = [0, 1, 2, 3] \<and>
        map (\<lambda>(n, s). (n, set s)) ps =
          [(0, {2, 3}), (1, {2, 3}), (2, {0, 1, 3}), (3, {0, 1, 2})]"
  using adjacency_pairs [of example_store] example_derived
  by (auto simp: example_nodes derived_set_def)

text \<open>
  C7. \<open>neighbors(n)\<close> signals the node-not-found error (\<open>NetworkXError\<close>) if and only if
  \<open>n\<close> is absent from the node universe of the store, and signals no other error; for a
  present node with an empty sparse set it succeeds, with every other node as a
  neighbour.
\<close>

theorem neighbors_error_iff:
  "(neighbors g n = Inl NetworkXError) = (\<not> contains g n) \<and>
   (\<forall>e. neighbors g n = Inl e \<longrightarrow> e = NetworkXError) \<and>
   (map_of (adj g) n = Some [] \<longrightarrow> (\<exists>s. neighbors g n = Inr s \<and> set s = AllNodes g - {n}))"
proof (intro conjI allI impI)
  show "(neighbors g n = Inl NetworkXError) = (\<not> contains g n)"
  proof (cases "contains g n")
    case True
    with dense_nbrs_present [OF True univ_adj] show ?thesis
      by (auto simp: neighbors_def)
  next
    case False
    then show ?thesis by (simp add: neighbors_def dense_nbrs_absent)
  qed
next
  fix e assume e: "neighbors g n = Inl e"
  show "e = NetworkXError"
  proof (cases "contains g n")
    case True
    with dense_nbrs_present [OF True univ_adj] e show ?thesis
      by (auto simp: neighbors_def)
  next
    case False
    with e show ?thesis by (simp add: neighbors_def dense_nbrs_absent)
  qed
next
  assume m: "map_of (adj g) n = Some []"
  then have c: "contains g n" by (simp add: contains_iff_key)
  from dense_nbrs_present [OF c univ_adj] m
  show "\<exists>s. neighbors g n = Inr s \<and> set s = AllNodes g - {n}"
    by (auto simp: neighbors_def derived_set_def SparseSet_def)
qed

theorem neighbors_error_iff_witness:
  "map_of (adj example_store) 3 = Some [] \<and>
   (\<exists>s. neighbors example_store 3 = Inr s \<and> set s = {0, 1, 2}) \<and>
   neighbors example_store 7 = Inl NetworkXError"
proof -
  have m: "map_of (adj example_store) 3 = Some []" by (simp add: example_store_def)
  have a: "AllNodes example_store - {3} = {0, 1, 2}"
    by (auto simp: AllNodes_def example_store_def)
  have c: "\<not> contains example_store 7" by (simp add: example_contains)
  from neighbors_error_iff [of example_store 3] neighbors_error_iff [of example_store 7] m c
  show ?thesis by (simp add: a)
qed

text \<open>
  C8, as stated: for every \<open>n\<close> absent from the sparse store, \<open>view[n]\<close> fails with the
  node-not-found error, as \<open>neighbors\<close> does. It does not: on the store of the scenario,
  \<open>view[7]\<close> raises \<open>KeyError\<close> where \<open>neighbors(7)\<close> raises \<open>NetworkXError\<close>.
\<close>

theorem getitem_absent_counterexample:
  "\<not> contains example_store 7 \<and>
   getitem example_store 7 \<noteq> Inl NetworkXError \<and>
   getitem example_store 7 = Inl KeyError \<and>
   neighbors example_store 7 = Inl NetworkXError"
  by (simp add: example_contains getitem_def nbrs_dict_def neighbors_def dense_nbrs_absent)

text \<open>
  C8, amended: \<open>view[n]\<close> has the domain of \<open>neighbors\<close>, failing exactly when \<open>n\<close> is
  absent from the sparse store, and then with the generic lookup failure \<open>KeyError\<close>,
  its only error.
\<close>

theorem getitem_error_iff:
  "(getitem g n = Inl KeyError) = (\<not> contains g n) \<and>
   (\<forall>e. getitem g n = Inl e \<longrightarrow> e = KeyError) \<and>
   isl (getitem g n) = isl (neighbors g n)"
proof (cases "contains g n")
  case True
  with dense_nbrs_present [OF True univ_adj] show ?thesis
    by (auto simp: getitem_def nbrs_dict_def neighbors_def)
next
  case False
  then show ?thesis
    by (simp add: getitem_def nbrs_dict_def neighbors_def dense_nbrs_absent)
qed

theorem getitem_error_iff_witness:
  "\<not> contains example_store 7 \<and> getitem example_store 7 = Inl KeyError \<and>
   isl (neighbors example_store 7)"
proof -
  have c: "\<not> contains example_store 7"
    by (simp add: example_contains)
  from getitem_error_iff [of example_store 7] c show ?thesis by auto
qed

text \<open>
  C9. The claim is that for every node \<open>n\<close> present in the sparse store, \<open>view[n]\<close> has
  the key set \<open>AllNodes - SparseSet(n) - {n}\<close> and maps every derived neighbour to the
  unit-weight record \<open>{weight: 1}\<close>. The key set is as claimed (\<open>getitem_keys\<close>), but the
  values are the class dictionary as it stands: on the store of the scenario with its
  edge 0-1 added with \<open>weight=5\<close>, \<open>view[0]\<close> is \<open>{2: {'weight': 5}, 3: {'weight': 5}}\<close>.
\<close>

theorem getitem_weight_differs:
  "contains weighted_store 0 \<and>
   getitem weighted_store 0 = Inr [(2, [(''weight'', 5)]), (3, [(''weight'', 5)])]"
proof
  show "contains weighted_store 0" by (simp add: weighted_contains)
  show "getitem weighted_store 0 = Inr [(2, [(''weight'', 5)]), (3, [(''weight'', 5)])]"
    by (simp add: getitem_def nbrs_dict_def dense_nbrs_def adj_item_def set_minus_def
        py_set_def weighted_store_def)
qed

text \<open>
  C10. A node \<open>n\<close> is never a member of its own derived neighbour set
  \<open>AllNodes - SparseSet(n) - {n}\<close>: whenever the dictionary \<open>nbrs\<close> of \<open>n\<close> is built, the
  test \<open>n in nbrs\<close> is false and the self-loop term is 0, for every weight key. So
  \<open>degree\<close> with no weight key, in the single-node form and in both bulk forms, is
  exactly the size of the derived neighbour set.
\<close>

theorem self_loop_branch_dead:
  "n \<notin> AllNodes g - SparseSet g n - {n} \<and>
   (\<forall>universe nbrs. nbrs_dict universe g n = Inr nbrs \<longrightarrow>
        n \<notin> set (map fst nbrs) \<and> (\<forall>k. self_loop_weight nbrs n k = Inr 0)) \<and>
   (contains g n \<longrightarrow>
        degree g (Node n) None = Inr (Deg (int (card (AllNodes g - SparseSet g n - {n}))))) \<and>
   degree g (Bunch S) None =
     Inr (DegIter (map (\<lambda>m. (m, int (card (AllNodes g - SparseSet g m - {m}))))
                       (filter (\<lambda>m. m \<in> AllNodes g) S))) \<and>
   degree g NoBunch None =
     Inr (DegIter (map (\<lambda>m. (m, int (card (AllNodes g - SparseSet g m - {m})))) (nodes g)))"
proof (intro conjI allI impI)
  show "n \<notin> AllNodes g - SparseSet g n - {n}" by simp
next
  fix universe nbrs assume a: "nbrs_dict universe g n = Inr nbrs"
  then obtain s where
    s: "dense_nbrs universe g n = Inr s" "nbrs = map (\<lambda>v. (v, all_edge_dict g)) s"
    by (auto simp: nbrs_dict_def split: sum.splits)
  from s(1) have "n \<notin> set s"
    by (auto simp: dense_nbrs_def set_minus_def py_set_def split: sum.splits)
  with s(2) show k: "n \<notin> set (map fst nbrs)"
    by (simp add: comp_def)
  fix k
  from k show "self_loop_weight nbrs n k = Inr 0"
    by (simp add: self_loop_weight_def)
next
  assume "contains g n"
  then show "degree g (Node n) None =
               Inr (Deg (int (card (AllNodes g - SparseSet g n - {n}))))"
    by (simp add: degree_node_present derived_set_def [symmetric] del: degree.simps)
next
  show "degree g (Bunch S) None =
     Inr (DegIter (map (\<lambda>m. (m, int (card (AllNodes g - SparseSet g m - {m}))))
                       (filter (\<lambda>m. m \<in> AllNodes g) S)))"
    by (simp add: degree_bunch_filter derived_set_def [symmetric] del: degree.simps)
next
  show "degree g NoBunch None =
     Inr (DegIter (map (\<lambda>m. (m, int (card (AllNodes g - SparseSet g m - {m})))) (nodes g)))"
    by (simp add: degree_all_nodes derived_set_def [symmetric] del: degree.simps)
qed

theorem self_loop_branch_dead_witness:
  "contains example_store 1 \<and>
   degree example_store (Node 1) None = Inr (Deg (int (card {2, 3 :: int}))) \<and>
   nbrs_dict (nodes example_store) example_store 1 =
     Inr [(2, [(''weight'', 1)]), (3, [(''weight'', 1)])] \<and>
   self_loop_weight [(2 :: int, [(''weight'', 1)]), (3, [(''weight'', 1)])] 1 ''weight'' = Inr 0"
proof -
  have c: "contains example_store 1" by (simp add: example_contains)
  have e: "AllNodes example_store - SparseSet example_store 1 - {1} = {2, 3}"
    using example_derived(2) by (simp add: derived_set_def)
  have d: "nbrs_dict (nodes example_store) example_store 1 =
             Inr [(2, [(''weight'', 1)]), (3, [(''weight'', 1)])]"
    by (simp add: nbrs_dict_def dense_nbrs_def adj_item_def nodes_def example_store_def
        set_minus_def py_set_def)
  from self_loop_branch_dead [of 1 example_store "[]"] c d show ?thesis
    by (simp add: e del: degree.simps)
qed

end
